theory Spec2Isabelle
  imports Main "HOL-Library.Word"
begin

unbundle bit_operations_syntax

section \<open>Scheduler (scheduler/main.c)\<close>

subsection \<open>HoldSignals and ReleaseSignals\<close>

text \<open>
  The static counter \<open>holdcount\<close> and the signal mask of the process. \<open>blocked\<close> says
  whether SIGTERM and SIGCHLD are held (\<open>sighold\<close>, or \<open>sigprocmask\<close> with SIG_BLOCK).
  The C \<open>int\<close> counter is modelled as an unbounded integer.
\<close>

record sigstate =
  holdcount :: int
  blocked :: bool

definition HoldSignals :: "sigstate \<Rightarrow> sigstate" where
  "HoldSignals s =
     (let s1 = s\<lparr>holdcount := holdcount s + 1\<rparr>
      in if holdcount s1 > 1 then s1 else s1\<lparr>blocked := True\<rparr>)"

definition ReleaseSignals :: "sigstate \<Rightarrow> sigstate" where
  "ReleaseSignals s =
     (let s1 = s\<lparr>holdcount := holdcount s - 1\<rparr>
      in if holdcount s1 > 0 then s1 else s1\<lparr>blocked := False\<rparr>)"

datatype sigcall = Hold | Release

fun sig_step :: "sigstate \<Rightarrow> sigcall \<Rightarrow> sigstate" where
  "sig_step s Hold = HoldSignals s"
| "sig_step s Release = ReleaseSignals s"

text \<open>The counter after each call of a sequence of calls, in order.\<close>

fun holdcount_trace :: "sigstate \<Rightarrow> sigcall list \<Rightarrow> int list" where
  "holdcount_trace s [] = []"
| "holdcount_trace s (c # cs) = holdcount (sig_step s c) # holdcount_trace (sig_step s c) cs"

text \<open>
  A sequence of calls is well nested at depth \<open>d\<close> when every release has an earlier
  hold that is still open, \<open>d\<close> holds being open at the start.
\<close>

fun well_nested :: "nat \<Rightarrow> sigcall list \<Rightarrow> bool" where
  "well_nested d [] = True"
| "well_nested d (Hold # cs) = well_nested (Suc d) cs"
| "well_nested d (Release # cs) = (0 < d \<and> well_nested (d - 1) cs)"

definition sig_init :: sigstate where
  "sig_init = \<lparr>holdcount = 0, blocked = False\<rparr>"

subsection \<open>select\_timeout\<close>

text \<open>
  The fields of \<open>client_t\<close>, \<open>printer_t\<close> and \<open>job_t\<close> that the scheduler loop reads.
  Times (\<open>time_t\<close>) and the \<open>long\<close> timeout are unbounded integers: the function adds a
  configured interval to an epoch time, far from the limits of \<open>long\<close>.
\<close>

text \<open>The states of an HTTP connection, from cups/http.h.\<close>

datatype http_state_t =
    HTTP_WAITING | HTTP_OPTIONS | HTTP_GET | HTTP_GET_SEND | HTTP_HEAD | HTTP_POST
  | HTTP_POST_RECV | HTTP_POST_SEND | HTTP_PUT | HTTP_PUT_RECV | HTTP_DELETE | HTTP_TRACE
  | HTTP_CLOSE | HTTP_STATUS

record client_t =
  http_used :: int
  http_activity :: int
  http_state :: http_state_t
  http_keep_alive :: bool

record printer_t =
  ptype :: int
  browse_protocol :: int
  browse_time :: int

text \<open>
  Constants of the headers cups/cups.h, cups/ipp.h and scheduler/dirsvc.h, which are not
  among the sources: the printer type bits, the browse protocol bits and the state of a
  job in processing (pending is 3 and held is 4, below it).
\<close>

definition CUPS_PRINTER_REMOTE :: int where "CUPS_PRINTER_REMOTE = 2"
definition CUPS_PRINTER_IMPLICIT :: int where "CUPS_PRINTER_IMPLICIT = 65536"
definition BROWSE_CUPS :: int where "BROWSE_CUPS = 1"
definition BROWSE_SLP :: int where "BROWSE_SLP = 2"
definition IPP_JOB_PROCESSING :: int where "IPP_JOB_PROCESSING = 5"

text \<open>
  The globals read by \<open>select_timeout\<close> and by the reload check of \<open>main\<close>, and the
  three compile-time switches of \<open>select_timeout\<close> as booleans. \<open>job_states\<close> lists
  \<open>job->state->values[0].integer\<close> of the jobs in list order; \<open>listening\<close> is cleared by
  PauseListening; \<open>L_DEBUG\<close> is the debug log level of scheduler/conf.h, which is not
  among the sources, kept as a parameter.
\<close>

record sched =
  Clients :: "client_t list"
  NumClients :: int
  Printers :: "printer_t list"
  job_states :: "int list"
  Timeout :: int
  Browsing :: int
  BrowseLocalProtocols :: int
  BrowseRemoteProtocols :: int
  BrowseSLPRefresh :: int
  BrowseTimeout :: int
  BrowseInterval :: int
  NotifyPost :: int
  LogLevel :: int
  L_DEBUG :: int
  mallinfo_time :: int
  RootCertDuration :: int
  RootCertTime :: int
  NeedReload :: int
  ReloadTime :: int
  ReloadTimeout :: int
  listening :: bool
  HAVE_NOTIFY_POST :: bool
  HAVE_LIBSLP :: bool
  HAVE_MALLINFO :: bool

text \<open>The loop over the clients that lowers the deadline to each idle time-out.\<close>

fun client_deadline :: "int \<Rightarrow> int \<Rightarrow> client_t list \<Rightarrow> int" where
  "client_deadline T t [] = t"
| "client_deadline T t (con # cons) =
     client_deadline T (if http_activity con + T < t then http_activity con + T else t) cons"

text \<open>One printer of the browse loop, and the loop.\<close>

definition printer_step :: "sched \<Rightarrow> int \<Rightarrow> printer_t \<Rightarrow> int" where
  "printer_step g t p =
     (if ptype p AND CUPS_PRINTER_REMOTE \<noteq> 0 then
        (if browse_protocol p = BROWSE_CUPS \<and> browse_time p + BrowseTimeout g < t
         then browse_time p + BrowseTimeout g else t)
      else if ptype p AND CUPS_PRINTER_IMPLICIT = 0 then
        (if BrowseInterval g \<noteq> 0 \<and> browse_time p + BrowseInterval g < t
         then browse_time p + BrowseInterval g else t)
      else t)"

fun printer_deadline :: "sched \<Rightarrow> int \<Rightarrow> printer_t list \<Rightarrow> int" where
  "printer_deadline g t [] = t"
| "printer_deadline g t (p # ps) = printer_deadline g (printer_step g t p) ps"

definition browse_deadline :: "sched \<Rightarrow> int \<Rightarrow> int" where
  "browse_deadline g t =
     (if Browsing g \<noteq> 0 \<and> (BrowseLocalProtocols g \<noteq> 0 \<or> BrowseRemoteProtocols g \<noteq> 0) then
        (let t1 = (if HAVE_LIBSLP g \<and> BrowseRemoteProtocols g AND BROWSE_SLP \<noteq> 0
                      \<and> BrowseSLPRefresh g < t
                   then BrowseSLPRefresh g else t)
         in if (BrowseLocalProtocols g OR BrowseRemoteProtocols g) AND BROWSE_CUPS \<noteq> 0
            then printer_deadline g t1 (Printers g) else t1)
      else t)"

definition job_deadline :: "sched \<Rightarrow> int \<Rightarrow> int \<Rightarrow> int" where
  "job_deadline g now t =
     (if t > now + 10 \<and> (\<exists>st \<in> set (job_states g). st \<le> IPP_JOB_PROCESSING)
      then now + 10 else t)"

definition mallinfo_deadline :: "sched \<Rightarrow> int \<Rightarrow> int" where
  "mallinfo_deadline g t =
     (if HAVE_MALLINFO g \<and> LogLevel g \<ge> L_DEBUG g \<and> mallinfo_time g + 60 < t
      then mallinfo_time g + 60 else t)"

definition cert_deadline :: "sched \<Rightarrow> int \<Rightarrow> int" where
  "cert_deadline g t =
     (if RootCertDuration g \<noteq> 0 \<and> RootCertTime g + RootCertDuration g < t
      then RootCertTime g + RootCertDuration g else t)"

text \<open>
  The absolute wake-up time held by the variable \<open>timeout\<close> before it is made relative:
  one day from now, lowered by each check in the order of the source.
\<close>

definition wake_deadline :: "sched \<Rightarrow> int \<Rightarrow> int" where
  "wake_deadline g now =
     cert_deadline g (mallinfo_deadline g (job_deadline g now
       (browse_deadline g (client_deadline (Timeout g) (now + 86400) (Clients g)))))"

text \<open>\<open>select_timeout(fds)\<close>, with the value of \<open>time(NULL)\<close> as the argument \<open>now\<close>.\<close>

definition select_timeout :: "sched \<Rightarrow> int \<Rightarrow> int \<Rightarrow> int" where
  "select_timeout g fds now =
     (if \<exists>con \<in> set (Clients g). http_used con > 0 then 0
      else if fds \<noteq> 0 \<or> NumClients g > 50 then 1
      else if HAVE_NOTIFY_POST g \<and> NotifyPost g \<noteq> 0 then 1
      else (let timeout = wake_deadline g now - now + 1
            in if timeout < 1 then 1 else if timeout > 86400 then 86400 else timeout))"

text \<open>
  The scheduled event times the function looks at, as a list: the candidates of the
  adaptive timeout, each under the condition stated for it.
\<close>

definition printer_events :: "sched \<Rightarrow> printer_t \<Rightarrow> int list" where
  "printer_events g p =
     (if ptype p AND CUPS_PRINTER_REMOTE \<noteq> 0 then
        (if browse_protocol p = BROWSE_CUPS then [browse_time p + BrowseTimeout g] else [])
      else if ptype p AND CUPS_PRINTER_IMPLICIT = 0 \<and> BrowseInterval g \<noteq> 0
      then [browse_time p + BrowseInterval g] else [])"

definition scheduled_events :: "sched \<Rightarrow> int \<Rightarrow> int list" where
  "scheduled_events g now =
     map (\<lambda>con. http_activity con + Timeout g) (Clients g)
     @ (if Browsing g \<noteq> 0 \<and> (BrowseLocalProtocols g \<noteq> 0 \<or> BrowseRemoteProtocols g \<noteq> 0) then
          (if HAVE_LIBSLP g \<and> BrowseRemoteProtocols g AND BROWSE_SLP \<noteq> 0
           then [BrowseSLPRefresh g] else [])
          @ (if (BrowseLocalProtocols g OR BrowseRemoteProtocols g) AND BROWSE_CUPS \<noteq> 0
             then concat (map (printer_events g) (Printers g)) else [])
        else [])
     @ (if \<exists>st \<in> set (job_states g). st \<le> IPP_JOB_PROCESSING then [now + 10] else [])
     @ (if HAVE_MALLINFO g \<and> LogLevel g \<ge> L_DEBUG g then [mallinfo_time g + 60] else [])
     @ (if RootCertDuration g \<noteq> 0 then [RootCertTime g + RootCertDuration g] else [])"

text \<open>A scheduler state for examples: no clients, printers or jobs, everything off.\<close>

definition idle_sched :: sched where
  "idle_sched = \<lparr>Clients = [], NumClients = 0, Printers = [], job_states = [],
     Timeout = 300, Browsing = 0, BrowseLocalProtocols = 0, BrowseRemoteProtocols = 0,
     BrowseSLPRefresh = 0, BrowseTimeout = 300, BrowseInterval = 30, NotifyPost = 0,
     LogLevel = 0, L_DEBUG = 8, mallinfo_time = 0, RootCertDuration = 0, RootCertTime = 0,
     NeedReload = 0, ReloadTime = 0, ReloadTimeout = 60, listening = True,
     HAVE_NOTIFY_POST = True, HAVE_LIBSLP = False, HAVE_MALLINFO = False\<rparr>"

definition busy_client :: client_t where
  "busy_client = \<lparr>http_used = 1, http_activity = 1000, http_state = HTTP_GET,
     http_keep_alive = True\<rparr>"

definition quiet_client :: client_t where
  "quiet_client = \<lparr>http_used = 0, http_activity = 1000, http_state = HTTP_WAITING,
     http_keep_alive = True\<rparr>"

definition cert_sched :: sched where
  "cert_sched = idle_sched\<lparr>RootCertDuration := 300, RootCertTime := 1000\<rparr>"

subsection \<open>The reload check of the main loop\<close>

text \<open>
  The values of the reload flag, from scheduler/conf.h, which is not among the sources.
\<close>

definition RELOAD_NONE :: int where "RELOAD_NONE = 0"
definition RELOAD_ALL :: int where "RELOAD_ALL = 1"
definition RELOAD_CUPSD :: int where "RELOAD_CUPSD = 2"

text \<open>
  Modelled from the spec: CloseClient, of scheduler/client.c, is not among the sources.
  The spec has a client destroyed when a reload forces the close of a waiting client:
  the client leaves the client list and NumClients goes down by one. The loop of
  \<open>main\<close> closes each client that is in the state HTTP\_WAITING and turns keep-alive off
  on the others; the result is the clients that remain and the number closed.
\<close>

fun close_idle_clients :: "client_t list \<Rightarrow> client_t list \<times> int" where
  "close_idle_clients [] = ([], 0)"
| "close_idle_clients (con # cons) =
     (let (rest, closed) = close_idle_clients cons
      in if http_state con = HTTP_WAITING then (rest, closed + 1)
         else (con\<lparr>http_keep_alive := False\<rparr> # rest, closed))"

definition quiesce_clients :: "sched \<Rightarrow> sched" where
  "quiesce_clients g =
     (if NumClients g > 0 then
        (let (rest, closed) = close_idle_clients (Clients g)
         in g\<lparr>Clients := rest, NumClients := NumClients g - closed, listening := False\<rparr>)
      else g)"

text \<open>
  The block \<open>if (NeedReload) ...\<close> of the main loop at time \<open>now\<close>: the state after it, and
  whether ReadConfiguration is called.
\<close>

definition reload_check :: "sched \<Rightarrow> int \<Rightarrow> sched \<times> bool" where
  "reload_check g now =
     (if NeedReload g \<noteq> 0 then
        (let g1 = quiesce_clients g;
             job = (\<exists>st \<in> set (job_states g1). st = IPP_JOB_PROCESSING)
         in (g1, (NumClients g1 = 0 \<and> (\<not> job \<or> NeedReload g1 \<noteq> RELOAD_ALL))
                 \<or> now - ReloadTime g1 \<ge> ReloadTimeout g1))
      else (g, False))"

subsection \<open>process\_children\<close>

text \<open>
  SIGTERM and the macros of sys/wait.h on a wait status, in the usual encoding: the low
  seven bits hold the terminating signal, the next byte the exit code.
\<close>

definition SIGTERM :: int where "SIGTERM = 15"

definition WTERMSIG :: "int \<Rightarrow> int" where
  "WTERMSIG st = st AND 127"

definition WIFSIGNALED :: "int \<Rightarrow> bool" where
  "WIFSIGNALED st = (st AND 127 \<noteq> 127 \<and> st AND 127 \<noteq> 0)"

definition WEXITSTATUS :: "int \<Rightarrow> int" where
  "WEXITSTATUS st = drop_bit 8 st AND 255"

text \<open>
  The reaper writes to the log and deletes the certificate of the pid; neither is part
  of the state modelled here. A job as the reaper sees it: \<open>job_state\<close> is \<open>None\<close> for a NULL \<open>job->state\<close>. \<open>procs\<close>
  is the array of filter pids up to its end; the array is zero terminated, so a read
  past the listed entries gives 0. \<open>printer\<close> identifies the printer of the job.
\<close>

record job_t =
  job_state :: "int option"
  procs :: "int list"
  status :: int
  printer :: nat

definition proc_at :: "int list \<Rightarrow> nat \<Rightarrow> int" where
  "proc_at ps i = (if i < length ps then ps ! i else 0)"

text \<open>
  \<open>for (i = 0; job->procs[i]; i ++) if (job->procs[i] == pid) break;\<close> gives the index at
  which the loop stops.
\<close>

fun find_proc :: "int list \<Rightarrow> int \<Rightarrow> nat" where
  "find_proc [] pid = 0"
| "find_proc (p # ps) pid = (if p \<noteq> 0 \<and> p \<noteq> pid then Suc (find_proc ps pid) else 0)"

text \<open>
  The state message written to the printer of the job, with the slot of the failed
  filter in place of the base name of its program.
\<close>

datatype state_msg = Terminated_on_signal nat int | Stopped_with_status nat int

record reaper =
  Jobs :: "job_t list"
  history :: "(nat \<times> state_msg) list"

text \<open>The body of the job loop for a job whose slot \<open>i\<close> holds the pid.\<close>

definition reap_slot :: "int \<Rightarrow> int \<Rightarrow> nat \<Rightarrow> job_t \<Rightarrow> job_t \<times> (nat \<times> state_msg) list" where
  "reap_slot pid st i job =
     (let job1 = job\<lparr>procs := (procs job)[i := - pid]\<rparr>
      in if st \<noteq> 0 \<and> status job1 \<ge> 0 then
           (job1\<lparr>status := (if proc_at (procs job1) (i + 1) = 0 then - st else st)\<rparr>,
            [(printer job1, if WIFSIGNALED st then Terminated_on_signal i (WTERMSIG st)
                            else Stopped_with_status i (WEXITSTATUS st))])
         else (job1, []))"

text \<open>The loop over the jobs: the first job in processing that holds the pid takes it.\<close>

fun reap_jobs :: "int \<Rightarrow> int \<Rightarrow> job_t list \<Rightarrow> job_t list \<times> (nat \<times> state_msg) list" where
  "reap_jobs pid st [] = ([], [])"
| "reap_jobs pid st (job # jobs) =
     (if job_state job = Some IPP_JOB_PROCESSING
         \<and> proc_at (procs job) (find_proc (procs job) pid) \<noteq> 0
      then (let (job1, msgs) = reap_slot pid st (find_proc (procs job) pid) job
            in (job1 # jobs, msgs))
      else (let (jobs1, msgs) = reap_jobs pid st jobs in (job # jobs1, msgs)))"

text \<open>One child returned by waitpid, and the loop over the children that have exited.\<close>

definition reap_child :: "reaper \<Rightarrow> int \<times> int \<Rightarrow> reaper" where
  "reap_child r child =
     (let pid = fst child;
          st = (if snd child = SIGTERM then 0 else snd child);
          (jobs1, msgs) = reap_jobs pid st (Jobs r)
      in r\<lparr>Jobs := jobs1, history := history r @ msgs\<rparr>)"

definition process_children :: "reaper \<Rightarrow> (int \<times> int) list \<Rightarrow> reaper" where
  "process_children r children = fold (\<lambda>child r. reap_child r child) children r"

text \<open>The slots of a pipeline: the entries of \<open>procs\<close> before the terminating zero.\<close>

definition pipeline :: "int list \<Rightarrow> int list" where
  "pipeline ps = takeWhile (\<lambda>p. p \<noteq> 0) ps"

text \<open>A job in processing with the filters 101, 102 and the backend 103.\<close>

definition job3 :: job_t where
  "job3 = \<lparr>job_state = Some 5, procs = [101, 102, 103, 0], status = 0, printer = 0\<rparr>"

text \<open>Scheduler states with a reload pending, for examples.\<close>

definition reload_cupsd_sched :: sched where
  "reload_cupsd_sched = idle_sched\<lparr>job_states := [5], NeedReload := 2, ReloadTime := 1000\<rparr>"

definition reload_all_sched :: sched where
  "reload_all_sched = idle_sched\<lparr>Clients := [quiet_client, busy_client], NumClients := 2,
     job_states := [5], NeedReload := 1, ReloadTime := 1000\<rparr>"

section \<open>USB backend (backend/usb-libusb.c)\<close>

subsection \<open>get\_device\_id\<close>

text \<open>
  A \<open>char\<close> is a byte; \<open>(unsigned)c & 255\<close> widens it (with its sign) to 32 bits and keeps
  the low eight bits.
\<close>

type_synonym byte = "8 word"

definition unsigned_and_255 :: "byte \<Rightarrow> 32 word" where
  "unsigned_and_255 c = scast c AND 255"

text \<open>The two readings of the length prefix: most significant byte first, and last.\<close>

definition msb_first :: "byte list \<Rightarrow> nat" where
  "msb_first buffer =
     unat (push_bit 8 (unsigned_and_255 (buffer ! 0)) OR unsigned_and_255 (buffer ! 1))"

definition lsb_first :: "byte list \<Rightarrow> nat" where
  "lsb_first buffer =
     unat (push_bit 8 (unsigned_and_255 (buffer ! 1)) OR unsigned_and_255 (buffer ! 0))"

text \<open>\<open>memmove(buffer, buffer + 2, length)\<close> on a buffer of at least \<open>length + 2\<close> bytes.\<close>

definition memmove2 :: "byte list \<Rightarrow> nat \<Rightarrow> byte list" where
  "memmove2 buffer n = take n (drop 2 buffer) @ drop n buffer"

text \<open>
  \<open>get_device_id(printer, buffer, bufsize)\<close>. The first argument is the value returned
  by the control transfer and \<open>buffer\<close> the \<open>bufsize\<close> bytes of the buffer after it. The
  result is the returned status (0 or -1) and the buffer.
\<close>

definition get_device_id :: "int \<Rightarrow> byte list \<Rightarrow> nat \<Rightarrow> int \<times> byte list" where
  "get_device_id transfer buffer bufsize =
     (if transfer < 0 then (- 1, buffer[0 := 0])
      else
        (let len = msb_first buffer;
             len = (if len > bufsize \<or> len < 14 then lsb_first buffer else len);
             len = (if len > bufsize then bufsize else len)
         in if len < 14 then (- 1, buffer[0 := 0])
            else (let len = len - 2
                  in (0, (memmove2 buffer len)[len := 0]))))"

text \<open>The C string held by a buffer: the bytes before the first NUL.\<close>

definition c_string :: "byte list \<Rightarrow> byte list" where
  "c_string buffer = takeWhile (\<lambda>b. b \<noteq> 0) buffer"

text \<open>
  The length that the device-ID fetch settles on, in the words of its description: the
  big-endian reading of the first two bytes, replaced by the little-endian reading when
  it exceeds the buffer or is less than 14, then clamped to the buffer.
\<close>

definition prefix_length :: "byte list \<Rightarrow> nat \<Rightarrow> nat" where
  "prefix_length buffer bufsize =
     (let big = 256 * unat (buffer ! 0) + unat (buffer ! 1);
          little = 256 * unat (buffer ! 1) + unat (buffer ! 0)
      in min bufsize (if big > bufsize \<or> big < 14 then little else big))"

text \<open>
  A wire buffer built from a payload: the two-byte prefix holding the length of the
  prefix and the payload together, the payload, and \<open>pad\<close> for the rest of the buffer,
  which the transfer leaves as it was.
\<close>

definition build_msb :: "byte list \<Rightarrow> byte list \<Rightarrow> byte list" where
  "build_msb P pad =
     word_of_nat ((length P + 2) div 256) # word_of_nat ((length P + 2) mod 256) # P @ pad"

definition build_lsb :: "byte list \<Rightarrow> byte list \<Rightarrow> byte list" where
  "build_lsb P pad =
     word_of_nat ((length P + 2) mod 256) # word_of_nat ((length P + 2) div 256) # P @ pad"

text \<open>Decoding: the device ID string on success.\<close>

definition parse_device_id :: "byte list \<Rightarrow> nat \<Rightarrow> byte list option" where
  "parse_device_id buffer bufsize =
     (case get_device_id 0 buffer bufsize of
        (rc, buffer1) \<Rightarrow> if rc = 0 then Some (c_string buffer1) else None)"

text \<open>The shortest valid device ID, \<open>MFG:x;MDL:y;\<close>, as bytes.\<close>

definition mfg_mdl :: "byte list" where
  "mfg_mdl = [77, 70, 71, 58, 120, 59, 77, 68, 76, 58, 121, 59]"

subsection \<open>The side-channel thread\<close>

text \<open>The commands and status codes of cups/sidechannel.h.\<close>

datatype cups_sc_command_t =
    CUPS_SC_CMD_SOFT_RESET
  | CUPS_SC_CMD_DRAIN_OUTPUT
  | CUPS_SC_CMD_GET_BIDI
  | CUPS_SC_CMD_GET_DEVICE_ID
  | CUPS_SC_CMD_GET_STATE
  | CUPS_SC_CMD_GET_CONNECTED
  | CUPS_SC_CMD_OTHER int

datatype cups_sc_status_t =
    CUPS_SC_STATUS_NONE
  | CUPS_SC_STATUS_OK
  | CUPS_SC_STATUS_IO_ERROR
  | CUPS_SC_STATUS_TIMEOUT
  | CUPS_SC_STATUS_NO_RESPONSE
  | CUPS_SC_STATUS_BAD_MESSAGE
  | CUPS_SC_STATUS_TOO_BIG
  | CUPS_SC_STATUS_NOT_IMPLEMENTED

definition CUPS_SC_STATE_ONLINE :: byte where "CUPS_SC_STATE_ONLINE = 1"

text \<open>A message written with cupsSideChannelWrite: command, status and data bytes.\<close>

record sc_message =
  sc_command :: cups_sc_command_t
  sc_status :: cups_sc_status_t
  sc_data :: "byte list"

text \<open>
  The fields of the globals \<open>g\<close> that the side-channel thread reads and writes:
  the protocol of the printer, whether its handle is open, the count of print bytes
  waiting, the drain flag, and the number of resets sent to the device.
\<close>

record sc_globals =
  g_protocol :: int
  g_handle_open :: bool
  g_print_bytes :: int
  g_drain_output :: bool
  g_resets :: nat

text \<open>
  \<open>soft_reset\<close>, once it holds the I/O lock: the waiting print bytes are dropped and the
  device is reset. The wait for the lock and the flush of the input descriptor are not
  part of the state modelled here.
\<close>

definition soft_reset :: "sc_globals \<Rightarrow> sc_globals" where
  "soft_reset g = g\<lparr>g_print_bytes := 0, g_resets := Suc (g_resets g)\<rparr>"

text \<open>
  The body of the \<open>switch\<close> for one command read from the side channel. \<open>transfer\<close> and
  \<open>data\<close> are what the device-ID control transfer returns and the 2048 bytes of the data
  buffer after it; they are used by GET\_DEVICE\_ID only. The result is the globals and
  the message written back, if any. The local variable \<open>status\<close> is kept as the code
  sets it, next to the status that is passed to cupsSideChannelWrite.
\<close>

definition sidechannel_command ::
    "sc_globals \<Rightarrow> cups_sc_command_t \<Rightarrow> int \<Rightarrow> byte list \<Rightarrow> sc_globals \<times> sc_message option" where
  "sidechannel_command g command transfer data =
     (case command of
        CUPS_SC_CMD_SOFT_RESET \<Rightarrow>
          (soft_reset g,
           Some \<lparr>sc_command = command, sc_status = CUPS_SC_STATUS_OK, sc_data = []\<rparr>)
      | CUPS_SC_CMD_DRAIN_OUTPUT \<Rightarrow> (g\<lparr>g_drain_output := True\<rparr>, None)
      | CUPS_SC_CMD_GET_BIDI \<Rightarrow>
          (g, Some \<lparr>sc_command = command, sc_status = CUPS_SC_STATUS_OK,
                    sc_data = [if g_protocol g \<ge> 2 then 1 else 0]\<rparr>)
      | CUPS_SC_CMD_GET_DEVICE_ID \<Rightarrow>
          (let (rc, data1) = get_device_id transfer data 2048;
               (status, datalen) =
                 (if rc \<noteq> 0 then (CUPS_SC_STATUS_IO_ERROR, 0)
                  else (CUPS_SC_STATUS_OK, length (c_string data1)))
           in (g, Some \<lparr>sc_command = command, sc_status = CUPS_SC_STATUS_OK,
                         sc_data = take datalen data1\<rparr>))
      | CUPS_SC_CMD_GET_STATE \<Rightarrow>
          (g, Some \<lparr>sc_command = command, sc_status = CUPS_SC_STATUS_OK,
                    sc_data = [CUPS_SC_STATE_ONLINE]\<rparr>)
      | CUPS_SC_CMD_GET_CONNECTED \<Rightarrow>
          (g, Some \<lparr>sc_command = command, sc_status = CUPS_SC_STATUS_OK,
                    sc_data = [if g_handle_open g then 1 else 0]\<rparr>)
      | CUPS_SC_CMD_OTHER n \<Rightarrow>
          (g, Some \<lparr>sc_command = command, sc_status = CUPS_SC_STATUS_NOT_IMPLEMENTED,
                    sc_data = []\<rparr>))"

definition sc_idle :: sc_globals where
  "sc_idle = \<lparr>g_protocol = 2, g_handle_open = True, g_print_bytes = 0,
     g_drain_output = False, g_resets = 0\<rparr>"

subsection \<open>find\_device: the scan of one interface\<close>

text \<open>The constants of libusb.h used by the scan.\<close>

definition LIBUSB_CLASS_PRINTER :: byte where "LIBUSB_CLASS_PRINTER = 7"
definition LIBUSB_TRANSFER_TYPE_MASK :: byte where "LIBUSB_TRANSFER_TYPE_MASK = 3"
definition LIBUSB_TRANSFER_TYPE_BULK :: byte where "LIBUSB_TRANSFER_TYPE_BULK = 2"
definition LIBUSB_ENDPOINT_DIR_MASK :: byte where "LIBUSB_ENDPOINT_DIR_MASK = 128"

record libusb_endpoint_descriptor =
  bEndpointAddress :: byte
  bmAttributes :: byte

text \<open>An alternate setting; \<open>bNumEndpoints\<close> is the length of \<open>endpoint\<close>.\<close>

record libusb_interface_descriptor =
  bInterfaceClass :: byte
  bInterfaceSubClass :: byte
  bInterfaceProtocol :: byte
  endpoint :: "libusb_endpoint_descriptor list"

text \<open>
  The loop over the endpoints of an alternate setting. \<open>endp\<close>, \<open>read_endp\<close> and
  \<open>write_endp\<close> are \<open>uint8_t\<close> in the source; the counter is carried as a natural number
  and stored as a byte.
\<close>

definition endpoint_step ::
    "nat \<Rightarrow> byte \<times> byte \<Rightarrow> libusb_endpoint_descriptor \<Rightarrow> byte \<times> byte" where
  "endpoint_step endp rw e =
     (if bmAttributes e AND LIBUSB_TRANSFER_TYPE_MASK = LIBUSB_TRANSFER_TYPE_BULK then
        (if bEndpointAddress e AND LIBUSB_ENDPOINT_DIR_MASK \<noteq> 0
         then (word_of_nat endp, snd rw) else (fst rw, word_of_nat endp))
      else rw)"

fun scan_endpoints ::
    "nat \<Rightarrow> byte \<times> byte \<Rightarrow> libusb_endpoint_descriptor list \<Rightarrow> byte \<times> byte" where
  "scan_endpoints endp rw [] = rw"
| "scan_endpoints endp rw (e # es) = scan_endpoints (Suc endp) (endpoint_step endp rw e) es"

text \<open>
  The best match so far: the local \<open>protocol\<close> and the fields of the static \<open>printer\<close>
  that the loop over the alternate settings writes (they are \<open>int\<close>).
\<close>

record usb_match =
  protocol :: byte
  altset :: int
  write_endp :: int
  read_endp :: int

text \<open>
  One alternate setting. \<open>read_endp = -1\<close> and \<open>write_endp = -1\<close> store 255 in the
  bytes, and the test \<open>write_endp >= 0\<close> is made on the value of the byte.
\<close>

definition altsetting_step :: "nat \<Rightarrow> usb_match \<Rightarrow> libusb_interface_descriptor \<Rightarrow> usb_match" where
  "altsetting_step alt m altptr =
     (if bInterfaceClass altptr \<noteq> LIBUSB_CLASS_PRINTER \<or> bInterfaceSubClass altptr \<noteq> 1
         \<or> (bInterfaceProtocol altptr \<noteq> 1 \<and> bInterfaceProtocol altptr \<noteq> 2)
         \<or> bInterfaceProtocol altptr < protocol m
      then m
      else (let (r, w) = scan_endpoints 0 (- 1, - 1) (endpoint altptr)
            in if uint w \<ge> 0
               then m\<lparr>protocol := bInterfaceProtocol altptr,
                      altset := uint (word_of_nat alt :: byte),
                      write_endp := uint w, read_endp := uint r\<rparr>
               else m))"

fun scan_altsettings ::
    "nat \<Rightarrow> usb_match \<Rightarrow> libusb_interface_descriptor list \<Rightarrow> usb_match" where
  "scan_altsettings alt m [] = m"
| "scan_altsettings alt m (altptr # alts) =
     scan_altsettings (Suc alt) (altsetting_step alt m altptr) alts"

text \<open>
  The scan of one interface: \<open>protocol = 0\<close>, then the loop. The interface is offered
  to the callback when the protocol found is greater than 0.
\<close>

definition scan_interface :: "usb_match \<Rightarrow> libusb_interface_descriptor list \<Rightarrow> usb_match" where
  "scan_interface prn alts = scan_altsettings 0 (prn\<lparr>protocol := 0\<rparr>) alts"

definition interface_accepted :: "usb_match \<Rightarrow> libusb_interface_descriptor list \<Rightarrow> bool" where
  "interface_accepted prn alts = (protocol (scan_interface prn alts) > 0)"


definition bulk_out :: "libusb_endpoint_descriptor \<Rightarrow> bool" where
  "bulk_out e = (bmAttributes e AND LIBUSB_TRANSFER_TYPE_MASK = LIBUSB_TRANSFER_TYPE_BULK
                 \<and> bEndpointAddress e AND LIBUSB_ENDPOINT_DIR_MASK = 0)"




text \<open>Endpoints and alternate settings for examples.\<close>

definition ep :: "byte \<Rightarrow> byte \<Rightarrow> libusb_endpoint_descriptor" where
  "ep addr attr = \<lparr>bEndpointAddress = addr, bmAttributes = attr\<rparr>"

definition alt_of :: "byte \<Rightarrow> libusb_endpoint_descriptor list \<Rightarrow> libusb_interface_descriptor" where
  "alt_of proto eps = \<lparr>bInterfaceClass = 7, bInterfaceSubClass = 1, bInterfaceProtocol = proto,
     endpoint = eps\<rparr>"

definition no_match :: usb_match where
  "no_match = \<lparr>protocol = 0, altset = 0, write_endp = 0, read_endp = 0\<rparr>"



subsection \<open>print\_device: the writer\<close>

text \<open>
  The exit codes of cups/backend.h, the transfer errors of libusb.h and the two error
  numbers of errno.h that the writer tests.
\<close>

definition CUPS_BACKEND_OK :: int where "CUPS_BACKEND_OK = 0"
definition CUPS_BACKEND_FAILED :: int where "CUPS_BACKEND_FAILED = 1"
definition CUPS_BACKEND_STOP :: int where "CUPS_BACKEND_STOP = 4"
definition LIBUSB_ERROR_TIMEOUT :: int where "LIBUSB_ERROR_TIMEOUT = - 7"
definition LIBUSB_ERROR_PIPE :: int where "LIBUSB_ERROR_PIPE = - 9"
definition LIBUSB_ERROR_INTERRUPTED :: int where "LIBUSB_ERROR_INTERRUPTED = - 10"
definition EINTR :: int where "EINTR = 4"
definition EAGAIN :: int where "EAGAIN = 11"

text \<open>
  The state of the main thread while it sends the print file: the local \<open>status\<close>,
  \<open>g.print_bytes\<close>, the offset of \<open>print_ptr\<close> in the buffer, \<open>total_bytes\<close>,
  \<open>g.drain_output\<close>, whether the handle of the printer is open, and two counters of what
  the thread has done: the bulk transfers issued on the write endpoint and the replies
  sent for DRAIN\_OUTPUT.
\<close>

record writer =
  backend_status :: int
  print_bytes :: int
  print_ptr :: int
  total_bytes :: int
  drain_output :: bool
  handle_open :: bool
  transfers :: nat
  drain_replies :: nat

text \<open>
  What the system answers during one pass of the inner loop: the value of \<open>select\<close>
  with \<open>errno\<close>, whether \<open>print_fd\<close> is left in the input set, the value of \<open>read\<close> with
  \<open>errno\<close>, and the status and byte count of the bulk transfer and of its retry.
\<close>

record tick =
  nfds :: int
  select_errno :: int
  fd_isset :: bool
  read_bytes :: int
  read_errno :: int
  transfer1 :: "int \<times> int"
  transfer2 :: "int \<times> int"

datatype pass_result = Continue writer | Break writer | Return int writer

definition close_device :: "writer \<Rightarrow> writer" where
  "close_device w = w\<lparr>handle_open := False\<rparr>"

text \<open>The end of the write: \<open>if (iostatus) ... else if (bytes > 0) ...\<close>.\<close>

definition conclude_write :: "int \<Rightarrow> int \<Rightarrow> writer \<Rightarrow> pass_result" where
  "conclude_write iostatus bytes w =
     (if iostatus \<noteq> 0 then Break (w\<lparr>backend_status := CUPS_BACKEND_FAILED\<rparr>)
      else if bytes > 0 then
        Continue (w\<lparr>print_bytes := print_bytes w - bytes, print_ptr := print_ptr w + bytes,
                    total_bytes := total_bytes w + bytes\<rparr>)
      else Continue w)"

text \<open>\<open>if (g.print_bytes) ...\<close>: the bulk transfer, its retry and the end of the write.\<close>

definition bulk_write :: "writer \<Rightarrow> tick \<Rightarrow> pass_result" where
  "bulk_write w t =
     (if print_bytes w \<noteq> 0 then
        (let w1 = w\<lparr>transfers := Suc (transfers w)\<rparr>;
             w2 = w1\<lparr>transfers := Suc (transfers w1)\<rparr>
         in if fst (transfer1 t) = LIBUSB_ERROR_TIMEOUT
            then conclude_write 0 (snd (transfer1 t)) w1
            else if fst (transfer1 t) = LIBUSB_ERROR_PIPE
            then conclude_write (fst (transfer2 t)) (snd (transfer2 t)) w2
            else if fst (transfer1 t) = LIBUSB_ERROR_INTERRUPTED
            then conclude_write (fst (transfer2 t)) (snd (transfer2 t)) w2
            else conclude_write (fst (transfer1 t)) (snd (transfer1 t)) w1)
      else Continue w)"

text \<open>
  One pass of the loop \<open>while (status == CUPS_BACKEND_OK)\<close>. \<open>print_fd\<close> is put in the
  input set only when no print bytes are waiting, and \<open>select\<close> can only take it out.
\<close>

definition writer_pass :: "writer \<Rightarrow> tick \<Rightarrow> pass_result" where
  "writer_pass w t =
     (if nfds t < 0 \<and> select_errno t = EINTR \<and> total_bytes w = 0
      then Return CUPS_BACKEND_OK (close_device w)
      else if nfds t < 0 \<and> select_errno t \<noteq> EAGAIN \<and> select_errno t \<noteq> EINTR
      then Return CUPS_BACKEND_FAILED (close_device w)
      else
        (let w1 = (if drain_output w \<and> nfds t = 0 \<and> print_bytes w = 0
                   then w\<lparr>drain_output := False, drain_replies := Suc (drain_replies w)\<rparr>
                   else w)
         in if print_bytes w = 0 \<and> fd_isset t then
              (if read_bytes t < 0 then
                 (if read_errno t \<noteq> EAGAIN \<and> read_errno t \<noteq> EINTR
                  then Return CUPS_BACKEND_FAILED (close_device (w1\<lparr>print_bytes := read_bytes t\<rparr>))
                  else bulk_write (w1\<lparr>print_bytes := 0, print_ptr := 0\<rparr>) t)
               else if read_bytes t = 0 then Break (w1\<lparr>print_bytes := 0\<rparr>)
               else bulk_write (w1\<lparr>print_bytes := read_bytes t, print_ptr := 0\<rparr>) t)
            else bulk_write w1 t))"

text \<open>
  The loop for one copy over the answers of the system, with the answers left over.
  \<open>Continue\<close> as a result says that the answers ran out while the loop was running:
  the thread is waiting in \<open>select\<close>.
\<close>

fun copy_loop :: "writer \<Rightarrow> tick list \<Rightarrow> pass_result \<times> tick list" where
  "copy_loop w [] =
     (if backend_status w \<noteq> CUPS_BACKEND_OK then (Break w, []) else (Continue w, []))"
| "copy_loop w (t # ts) =
     (if backend_status w \<noteq> CUPS_BACKEND_OK then (Break w, t # ts)
      else (case writer_pass w t of
              Continue w1 \<Rightarrow> copy_loop w1 ts
            | Break w1 \<Rightarrow> (Break w1, ts)
            | Return c w1 \<Rightarrow> (Return c w1, ts)))"

text \<open>
  The loop \<open>while (status == CUPS_BACKEND_OK && copies-- > 0)\<close>, for a number of copies
  that is not negative: the function has returned from inside the loop, or is waiting,
  or has left the loop.
\<close>

datatype send_result = Exit int writer | Waiting writer | Sent writer

fun send_copies :: "writer \<Rightarrow> nat \<Rightarrow> tick list \<Rightarrow> send_result" where
  "send_copies w 0 ts = Sent w"
| "send_copies w (Suc copies) ts =
     (if backend_status w \<noteq> CUPS_BACKEND_OK then Sent w
      else (case copy_loop w ts of
              (Break w1, ts1) \<Rightarrow> send_copies w1 copies ts1
            | (Return c w1, ts1) \<Rightarrow> Exit c w1
            | (Continue w1, ts1) \<Rightarrow> Waiting w1))"

text \<open>The state in which the main thread starts to send.\<close>

definition writer_init :: writer where
  "writer_init = \<lparr>backend_status = 0, print_bytes = 0, print_ptr = 0, total_bytes = 0,
     drain_output = False, handle_open = True, transfers = 0, drain_replies = 0\<rparr>"

text \<open>
  \<open>print_device\<close> from the start of the sending to its return: the exit status and the
  final state, or \<open>None\<close> while the function has not returned. After the loops the
  device is closed and \<open>status\<close> is returned.
\<close>

definition print_device :: "nat \<Rightarrow> tick list \<Rightarrow> (int \<times> writer) option" where
  "print_device copies ts =
     (case send_copies writer_init copies ts of
        Exit c w \<Rightarrow> Some (c, w)
      | Sent w \<Rightarrow> Some (backend_status w, close_device w)
      | Waiting w \<Rightarrow> None)"


definition eintr_tick :: tick where
  "eintr_tick = \<lparr>nfds = - 1, select_errno = 4, fd_isset = True, read_bytes = 0,
     read_errno = 0, transfer1 = (0, 0), transfer2 = (0, 0)\<rparr>"

definition idle_tick :: tick where
  "idle_tick = \<lparr>nfds = 0, select_errno = 0, fd_isset = False, read_bytes = 0,
     read_errno = 0, transfer1 = (0, 0), transfer2 = (0, 0)\<rparr>"

section \<open>Theorems\<close>

subsection \<open>Signal nesting count\<close>

lemma holdcount_HoldSignals: "holdcount (HoldSignals s) = holdcount s + 1"
  by (simp add: HoldSignals_def Let_def)

lemma holdcount_ReleaseSignals: "holdcount (ReleaseSignals s) = holdcount s - 1"
  by (simp add: ReleaseSignals_def Let_def)

lemma holdcount_trace_nonneg:
  "well_nested d cs \<Longrightarrow> holdcount s = int d \<Longrightarrow> \<forall>c \<in> set (holdcount_trace s cs). 0 \<le> c"
proof (induction d cs arbitrary: s rule: well_nested.induct)
  case (1 d)
  then show ?case by simp
next
  case (2 d cs)
  have c: "holdcount (HoldSignals s) = int (Suc d)"
    using 2 by (simp add: holdcount_HoldSignals)
  have "well_nested (Suc d) cs" using 2 by simp
  then have "\<forall>c \<in> set (holdcount_trace (HoldSignals s) cs). 0 \<le> c"
    using "2.IH" c by blast
  then show ?case using c by simp
next
  case (3 d cs)
  then have d: "0 < d" and nest: "well_nested (d - 1) cs" by simp_all
  have c: "holdcount (ReleaseSignals s) = int (d - 1)"
    using 3 d by (simp add: holdcount_ReleaseSignals)
  have "\<forall>c \<in> set (holdcount_trace (ReleaseSignals s) cs). 0 \<le> c"
    using "3.IH" d nest c by blast
  then show ?case using c by simp
qed

text \<open>
  C9, as stated: for every sequence of HoldSignals and ReleaseSignals calls the nesting
  count stays at least 0. It fails on a release with no hold before it: ReleaseSignals
  decrements the counter without looking at it, so the count after the call is -1.
\<close>

theorem C9_release_first_counterexample:
  "holdcount_trace sig_init [Release] = [-1]"
  by (simp add: sig_init_def ReleaseSignals_def Let_def)

text \<open>
  C9, amended: for every sequence of HoldSignals and ReleaseSignals calls in which each
  release is preceded by a hold that is still open, the count starting at 0, the nesting
  count is at least 0 after every call.
\<close>

theorem C9_holdcount_nonneg:
  assumes "well_nested 0 cs" and "holdcount s = 0"
  shows "\<forall>c \<in> set (holdcount_trace s cs). 0 \<le> c"
  using holdcount_trace_nonneg [of 0 cs s] assms by simp

theorem C9_holdcount_nonneg_witness:
  "well_nested 0 [Hold, Hold, Release, Release, Hold, Release]
   \<and> holdcount sig_init = 0
   \<and> holdcount_trace sig_init [Hold, Hold, Release, Release, Hold, Release] = [1, 2, 1, 0, 1, 0]
   \<and> list_all (\<lambda>c. 0 \<le> c) (holdcount_trace sig_init [Hold, Hold, Release, Release, Hold, Release])"
proof -
  have n: "well_nested 0 [Hold, Hold, Release, Release, Hold, Release]" by simp
  have h: "holdcount sig_init = 0" by (simp add: sig_init_def)
  have t: "holdcount_trace sig_init [Hold, Hold, Release, Release, Hold, Release] = [1, 2, 1, 0, 1, 0]"
    by (simp add: sig_init_def HoldSignals_def ReleaseSignals_def Let_def)
  have "list_all (\<lambda>c. 0 \<le> c) (holdcount_trace sig_init [Hold, Hold, Release, Release, Hold, Release])"
    using C9_holdcount_nonneg [OF n h] by (simp only: list_all_iff)
  with n h t show ?thesis by blast
qed

subsection \<open>The adaptive timeout\<close>

text \<open>Each check of the function lowers the deadline to the least of its candidates.\<close>

lemma client_deadline_fold:
  "client_deadline T t cs = fold min (map (\<lambda>con. http_activity con + T) cs) t"
  by (induction cs arbitrary: t) (simp_all add: min_def)

lemma printer_step_fold: "printer_step g t p = fold min (printer_events g p) t"
  by (simp add: printer_step_def printer_events_def min_def)

lemma printer_deadline_fold:
  "printer_deadline g t ps = fold min (concat (map (printer_events g) ps)) t"
  by (induction ps arbitrary: t) (simp_all add: printer_step_fold)

lemma browse_deadline_fold:
  "browse_deadline g t = fold min
     (if Browsing g \<noteq> 0 \<and> (BrowseLocalProtocols g \<noteq> 0 \<or> BrowseRemoteProtocols g \<noteq> 0) then
          (if HAVE_LIBSLP g \<and> BrowseRemoteProtocols g AND BROWSE_SLP \<noteq> 0
           then [BrowseSLPRefresh g] else [])
          @ (if (BrowseLocalProtocols g OR BrowseRemoteProtocols g) AND BROWSE_CUPS \<noteq> 0
             then concat (map (printer_events g) (Printers g)) else [])
        else []) t"
  by (simp add: browse_deadline_def printer_deadline_fold Let_def min_def)

lemma job_deadline_fold:
  "job_deadline g now t = fold min
     (if \<exists>st \<in> set (job_states g). st \<le> IPP_JOB_PROCESSING then [now + 10] else []) t"
  by (auto simp add: job_deadline_def min_def)

lemma mallinfo_deadline_fold:
  "mallinfo_deadline g t = fold min
     (if HAVE_MALLINFO g \<and> LogLevel g \<ge> L_DEBUG g then [mallinfo_time g + 60] else []) t"
  by (simp add: mallinfo_deadline_def min_def)

lemma cert_deadline_fold:
  "cert_deadline g t = fold min
     (if RootCertDuration g \<noteq> 0 then [RootCertTime g + RootCertDuration g] else []) t"
  by (simp add: cert_deadline_def min_def)

lemma wake_deadline_fold:
  "wake_deadline g now = fold min (scheduled_events g now) (now + 86400)"
  unfolding wake_deadline_def scheduled_events_def fold_append comp_def
  by (simp only: client_deadline_fold browse_deadline_fold job_deadline_fold
      mallinfo_deadline_fold cert_deadline_fold)

lemma wake_deadline_Min:
  "wake_deadline g now = Min (set ((now + 86400) # scheduled_events g now))"
  by (simp only: wake_deadline_fold Min.set_eq_fold)

lemma wake_deadline_le_event:
  "e \<in> set (scheduled_events g now) \<Longrightarrow> wake_deadline g now \<le> e"
  by (simp add: wake_deadline_Min del: Min_insert)

lemma select_timeout_full:
  assumes "\<forall>con \<in> set (Clients g). http_used con \<le> 0" and "fds = 0" and "NumClients g \<le> 50"
    and "\<not> (HAVE_NOTIFY_POST g \<and> NotifyPost g \<noteq> 0)"
  shows "select_timeout g fds now = max 1 (min 86400 (wake_deadline g now - now + 1))"
proof -
  from assms(1) have n: "\<not> (\<exists>con \<in> set (Clients g). http_used con > 0)" by force
  have "select_timeout g fds now =
      (let timeout = wake_deadline g now - now + 1
       in if timeout < 1 then 1 else if timeout > 86400 then 86400 else timeout)"
    using assms n by (auto simp add: select_timeout_def)
  also have "\<dots> = max 1 (min 86400 (wake_deadline g now - now + 1))"
    by (simp add: Let_def max_def min_def)
  finally show ?thesis .
qed

lemma select_timeout_le_event:
  assumes "e \<in> set (scheduled_events g now)" and "now \<le> e"
  shows "select_timeout g fds now \<le> e - now + 1"
proof -
  have "wake_deadline g now \<le> e" using assms(1) by (rule wake_deadline_le_event)
  then have "(let timeout = wake_deadline g now - now + 1
       in if timeout < 1 then 1 else if timeout > 86400 then 86400 else timeout) \<le> e - now + 1"
    using assms(2) by (simp add: Let_def)
  then show ?thesis using assms(2) by (simp add: select_timeout_def)
qed

text \<open>
  C1, as stated: whatever the clients, jobs, printers and timers are, the value returned
  by select_timeout is at least 1 and at most 86400, and at most (earliest scheduled
  event time - now + 1). It fails twice: a client with buffered unread bytes makes the
  function return 0, and a deadline that has already passed (a certificate due at 1300
  seen at time 2000) gives 1, which is more than 1300 - 2000 + 1.
\<close>

theorem C1_select_timeout_counterexample:
  "select_timeout (idle_sched\<lparr>Clients := [busy_client], NumClients := 1\<rparr>) 0 2000 = 0
   \<and> scheduled_events cert_sched 2000 = [1300]
   \<and> select_timeout cert_sched 0 2000 = 1
   \<and> \<not> select_timeout cert_sched 0 2000 \<le> 1300 - 2000 + 1"
  by (simp add: select_timeout_def scheduled_events_def wake_deadline_def
      browse_deadline_def job_deadline_def mallinfo_deadline_def
      cert_deadline_def cert_sched_def idle_sched_def busy_client_def)

text \<open>
  C1, amended: select_timeout returns 0 when some client has buffered unread bytes, and
  otherwise a value that is at least 1 and at most 86400; the value is at most
  (event time - now + 1) for every scheduled event that is not in the past; and when no
  client has buffered bytes, no descriptor was ready, at most 50 clients are connected and
  no notification is pending, it is max(1, min(86400, deadline - now + 1)), the deadline
  being the earliest of now + 86400 and the scheduled event times.
\<close>

theorem C1_select_timeout_value:
  "(if \<exists>con \<in> set (Clients g). http_used con > 0 then select_timeout g fds now = 0
    else 1 \<le> select_timeout g fds now \<and> select_timeout g fds now \<le> 86400)
   \<and> (\<forall>e \<in> set (scheduled_events g now). now \<le> e \<longrightarrow> select_timeout g fds now \<le> e - now + 1)
   \<and> ((\<forall>con \<in> set (Clients g). http_used con \<le> 0) \<and> fds = 0 \<and> NumClients g \<le> 50
        \<and> \<not> (HAVE_NOTIFY_POST g \<and> NotifyPost g \<noteq> 0) \<longrightarrow>
      select_timeout g fds now =
        max 1 (min 86400 (Min (set ((now + 86400) # scheduled_events g now)) - now + 1)))"
proof -
  have a: "\<exists>con \<in> set (Clients g). http_used con > 0 \<Longrightarrow> select_timeout g fds now = 0"
    by (simp add: select_timeout_def)
  have b: "\<not> (\<exists>con \<in> set (Clients g). http_used con > 0) \<Longrightarrow>
      1 \<le> select_timeout g fds now \<and> select_timeout g fds now \<le> 86400"
    by (simp add: select_timeout_def Let_def)
  have c: "\<forall>e \<in> set (scheduled_events g now). now \<le> e \<longrightarrow> select_timeout g fds now \<le> e - now + 1"
    using select_timeout_le_event by blast
  have d: "(\<forall>con \<in> set (Clients g). http_used con \<le> 0) \<and> fds = 0 \<and> NumClients g \<le> 50
        \<and> \<not> (HAVE_NOTIFY_POST g \<and> NotifyPost g \<noteq> 0) \<longrightarrow>
      select_timeout g fds now =
        max 1 (min 86400 (Min (set ((now + 86400) # scheduled_events g now)) - now + 1))"
    using select_timeout_full [of g fds now] by (simp only: wake_deadline_Min) blast
  from a b c d show ?thesis by presburger
qed

theorem C1_select_timeout_value_witness:
  "Clients cert_sched = [] \<and> NumClients cert_sched = 0 \<and> NotifyPost cert_sched = 0
   \<and> scheduled_events cert_sched 1100 = [1300]
   \<and> select_timeout cert_sched 0 1100 = 201
   \<and> select_timeout cert_sched 0 1100 \<le> 1300 - 1100 + 1"
proof -
  have e: "scheduled_events cert_sched 1100 = [1300]"
    by (simp add: scheduled_events_def cert_sched_def idle_sched_def)
  have s: "Clients cert_sched = [] \<and> NumClients cert_sched = 0 \<and> NotifyPost cert_sched = 0"
    by (simp add: cert_sched_def idle_sched_def)
  then have h: "(\<forall>con \<in> set (Clients cert_sched). http_used con \<le> 0) \<and> (0::int) = 0
      \<and> NumClients cert_sched \<le> 50
      \<and> \<not> (HAVE_NOTIFY_POST cert_sched \<and> NotifyPost cert_sched \<noteq> 0)"
    by simp
  from C1_select_timeout_value [of cert_sched 0 1100] h
  have "select_timeout cert_sched 0 1100 =
      max 1 (min 86400 (Min (set ((1100 + 86400) # scheduled_events cert_sched 1100)) - 1100 + 1))"
    by blast
  then have v: "select_timeout cert_sched 0 1100 = 201" by (simp add: e)
  from C1_select_timeout_value [of cert_sched 0 1100] e
  have "select_timeout cert_sched 0 1100 \<le> 1300 - 1100 + 1" by simp
  with s e v show ?thesis by blast
qed

subsection \<open>Reload of the configuration\<close>

lemma close_idle_clients_fst:
  "fst (close_idle_clients cs) =
     map (\<lambda>con. con\<lparr>http_keep_alive := False\<rparr>) (filter (\<lambda>con. http_state con \<noteq> HTTP_WAITING) cs)"
  by (induction cs) (auto simp add: Let_def split: prod.splits)

lemma close_idle_clients_snd:
  "snd (close_idle_clients cs) = int (length (filter (\<lambda>con. http_state con = HTTP_WAITING) cs))"
  by (induction cs) (auto simp add: Let_def split: prod.splits)

lemma close_idle_clients_count:
  "int (length (fst (close_idle_clients cs))) + snd (close_idle_clients cs) = int (length cs)"
proof -
  have "length (filter (\<lambda>con. http_state con \<noteq> HTTP_WAITING) cs)
      + length (filter (\<lambda>con. http_state con = HTTP_WAITING) cs) = length cs"
    using sum_length_filter_compl [of "\<lambda>con. http_state con = HTTP_WAITING" cs] by simp
  then show ?thesis
    by (simp only: close_idle_clients_fst close_idle_clients_snd length_map)
qed

lemma quiesce_Clients:
  assumes "NumClients g = int (length (Clients g))"
  shows "Clients (quiesce_clients g) =
     map (\<lambda>con. con\<lparr>http_keep_alive := False\<rparr>)
       (filter (\<lambda>con. http_state con \<noteq> HTTP_WAITING) (Clients g))"
proof (cases "NumClients g > 0")
  case True
  then show ?thesis
    using close_idle_clients_fst [of "Clients g"]
    by (auto simp add: quiesce_clients_def split: prod.splits)
next
  case False
  with assms have "Clients g = []" by simp
  with False show ?thesis by (simp add: quiesce_clients_def)
qed

lemma quiesce_NumClients:
  assumes "NumClients g = int (length (Clients g))"
  shows "NumClients (quiesce_clients g) = int (length (Clients (quiesce_clients g)))"
proof (cases "NumClients g > 0")
  case True
  then show ?thesis
    using close_idle_clients_count [of "Clients g"] assms
    by (auto simp add: quiesce_clients_def split: prod.splits)
next
  case False
  with assms show ?thesis by (simp add: quiesce_clients_def)
qed

lemma quiesce_others:
  "job_states (quiesce_clients g) = job_states g \<and> NeedReload (quiesce_clients g) = NeedReload g
   \<and> ReloadTime (quiesce_clients g) = ReloadTime g
   \<and> ReloadTimeout (quiesce_clients g) = ReloadTimeout g"
  by (simp add: quiesce_clients_def split: prod.splits)

text \<open>
  C5, amended: while the reload flag is set, the waiting clients are closed and the
  scheduler reloads the configuration exactly when either (no clients remain and (no job
  is in the Processing state or the flag is not RELOAD\_ALL)) or at least ReloadTimeout
  seconds have elapsed since the flag was set; with clients remaining and the time-out
  not yet elapsed, no reload occurs. NumClients is taken to count the client list.
\<close>

theorem C5_reload_condition:
  assumes "NeedReload g \<noteq> 0" and "NumClients g = int (length (Clients g))"
  shows "Clients (fst (reload_check g now)) =
           map (\<lambda>con. con\<lparr>http_keep_alive := False\<rparr>)
             (filter (\<lambda>con. http_state con \<noteq> HTTP_WAITING) (Clients g))
     \<and> (snd (reload_check g now) \<longleftrightarrow>
          (Clients (fst (reload_check g now)) = []
             \<and> (IPP_JOB_PROCESSING \<notin> set (job_states g) \<or> NeedReload g \<noteq> RELOAD_ALL))
          \<or> ReloadTimeout g \<le> now - ReloadTime g)
     \<and> (Clients (fst (reload_check g now)) \<noteq> [] \<and> now - ReloadTime g < ReloadTimeout g
          \<longrightarrow> \<not> snd (reload_check g now))"
proof -
  have f: "fst (reload_check g now) = quiesce_clients g"
    using assms(1) by (simp add: reload_check_def Let_def)
  have n: "NumClients (quiesce_clients g) = 0 \<longleftrightarrow> Clients (quiesce_clients g) = []"
    using quiesce_NumClients [OF assms(2)] by simp
  have j: "(\<exists>st \<in> set (job_states g). st = IPP_JOB_PROCESSING) \<longleftrightarrow> IPP_JOB_PROCESSING \<in> set (job_states g)"
    by blast
  have s: "snd (reload_check g now) \<longleftrightarrow>
      (Clients (quiesce_clients g) = []
         \<and> (IPP_JOB_PROCESSING \<notin> set (job_states g) \<or> NeedReload g \<noteq> RELOAD_ALL))
      \<or> ReloadTimeout g \<le> now - ReloadTime g"
    using assms(1) n j by (simp add: reload_check_def Let_def quiesce_others)
  show ?thesis
    using f s quiesce_Clients [OF assms(2)] by auto
qed

text \<open>
  C5, as stated: while the reload flag is set, the configuration is reloaded exactly when
  either (no clients remain and no job is in the Processing state) or ReloadTimeout
  seconds have elapsed since the flag was set. It fails when the flag holds a value other
  than RELOAD\_ALL: with no clients, a job in processing and the time-out not elapsed,
  the configuration is reloaded all the same.
\<close>

theorem C5_reload_counterexample:
  "NeedReload reload_cupsd_sched = RELOAD_CUPSD
   \<and> Clients reload_cupsd_sched = [] \<and> NumClients reload_cupsd_sched = 0
   \<and> job_states reload_cupsd_sched = [IPP_JOB_PROCESSING]
   \<and> 1010 - ReloadTime reload_cupsd_sched < ReloadTimeout reload_cupsd_sched
   \<and> snd (reload_check reload_cupsd_sched 1010)"
  by (simp add: reload_check_def quiesce_clients_def reload_cupsd_sched_def idle_sched_def
      RELOAD_CUPSD_def RELOAD_ALL_def IPP_JOB_PROCESSING_def)

theorem C5_reload_condition_witness:
  "NeedReload reload_all_sched = RELOAD_ALL
   \<and> NumClients reload_all_sched = int (length (Clients reload_all_sched))
   \<and> Clients (fst (reload_check reload_all_sched 1010)) = [busy_client\<lparr>http_keep_alive := False\<rparr>]
   \<and> \<not> snd (reload_check reload_all_sched 1010)
   \<and> snd (reload_check reload_all_sched 1060)"
proof -
  have a: "NeedReload reload_all_sched \<noteq> 0" by (simp add: reload_all_sched_def)
  have b: "NumClients reload_all_sched = int (length (Clients reload_all_sched))"
    by (simp add: reload_all_sched_def)
  have c: "NeedReload reload_all_sched = RELOAD_ALL"
    by (simp add: reload_all_sched_def RELOAD_ALL_def)
  have d: "Clients reload_all_sched = [quiet_client, busy_client]
      \<and> ReloadTime reload_all_sched = 1000 \<and> ReloadTimeout reload_all_sched = 60"
    by (simp add: reload_all_sched_def idle_sched_def)
  have e: "http_state quiet_client = HTTP_WAITING \<and> http_state busy_client = HTTP_GET"
    by (simp add: quiet_client_def busy_client_def)
  from C5_reload_condition [OF a b, of 1010] d e
  have 1: "Clients (fst (reload_check reload_all_sched 1010)) = [busy_client\<lparr>http_keep_alive := False\<rparr>]
      \<and> \<not> snd (reload_check reload_all_sched 1010)"
    by simp
  from C5_reload_condition [OF a b, of 1060] d
  have 2: "snd (reload_check reload_all_sched 1060)" by simp
  from b c 1 2 show ?thesis by blast
qed

subsection \<open>The child reaper\<close>

lemma find_proc_miss:
  "pid \<noteq> 0 \<Longrightarrow> pid \<notin> set (pipeline ps) \<Longrightarrow> proc_at ps (find_proc ps pid) = 0"
proof (induction ps)
  case Nil
  then show ?case by (simp add: proc_at_def)
next
  case (Cons p ps)
  then show ?case by (auto simp add: proc_at_def pipeline_def split: if_splits)
qed

lemma find_proc_hit:
  "i < length (pipeline ps) \<Longrightarrow> pipeline ps ! i = pid \<Longrightarrow> pid \<notin> set (take i (pipeline ps))
   \<Longrightarrow> find_proc ps pid = i"
proof (induction ps arbitrary: i)
  case Nil
  then show ?case by (simp add: pipeline_def)
next
  case (Cons p ps)
  show ?case
  proof (cases i)
    case 0
    with Cons.prems show ?thesis by (auto simp add: pipeline_def split: if_splits)
  next
    case (Suc k)
    with Cons.prems have p: "p \<noteq> 0" and q: "p \<noteq> pid"
      by (auto simp add: pipeline_def split: if_splits)
    with Cons.prems Suc have "k < length (pipeline ps)" "pipeline ps ! k = pid"
        "pid \<notin> set (take k (pipeline ps))"
      by (auto simp add: pipeline_def)
    then have "find_proc ps pid = k" by (rule Cons.IH)
    with p q Suc show ?thesis by simp
  qed
qed

lemma pipeline_nth:
  "i < length (pipeline ps) \<Longrightarrow> i < length ps \<and> ps ! i = pipeline ps ! i \<and> ps ! i \<noteq> 0"
proof -
  assume a: "i < length (pipeline ps)"
  have l: "length (pipeline ps) \<le> length ps" by (simp add: pipeline_def length_takeWhile_le)
  have "pipeline ps ! i = ps ! i" using a by (simp add: pipeline_def takeWhile_nth)
  moreover have "pipeline ps ! i \<in> set (pipeline ps)" using a by simp
  then have "pipeline ps ! i \<noteq> 0" unfolding pipeline_def by (auto dest: set_takeWhileD)
  ultimately show ?thesis using a l by simp
qed

lemma last_slot:
  assumes "i < length (pipeline ps)"
  shows "proc_at (ps[i := v]) (i + 1) = 0 \<longleftrightarrow> Suc i = length (pipeline ps)"
proof -
  have l: "length (pipeline ps) \<le> length ps" by (simp add: pipeline_def length_takeWhile_le)
  show ?thesis
  proof (cases "Suc i < length (pipeline ps)")
    case True
    then have "Suc i < length ps \<and> ps ! Suc i \<noteq> 0" using pipeline_nth by blast
    with True show ?thesis by (simp add: proc_at_def)
  next
    case False
    with assms have e: "Suc i = length (pipeline ps)" by simp
    have "Suc i < length ps \<Longrightarrow> ps ! Suc i = 0"
    proof -
      assume b: "Suc i < length ps"
      have "length (takeWhile (\<lambda>p. p \<noteq> 0) ps) < length ps" using b e by (simp add: pipeline_def)
      then have "\<not> (ps ! length (takeWhile (\<lambda>p. p \<noteq> 0) ps) \<noteq> 0)" by (rule nth_length_takeWhile)
      then show ?thesis using e by (simp add: pipeline_def)
    qed
    with e show ?thesis by (auto simp add: proc_at_def)
  qed
qed

lemma reap_jobs_first:
  assumes "pid \<noteq> 0"
    and "\<forall>j \<in> set pre. job_state j \<noteq> Some IPP_JOB_PROCESSING \<or> pid \<notin> set (pipeline (procs j))"
    and "job_state job = Some IPP_JOB_PROCESSING"
    and "i < length (pipeline (procs job))" and "pipeline (procs job) ! i = pid"
    and "pid \<notin> set (take i (pipeline (procs job)))"
  shows "fst (reap_jobs pid st (pre @ job # post)) = pre @ fst (reap_slot pid st i job) # post"
  using assms(2)
proof (induction pre)
  case Nil
  have f: "find_proc (procs job) pid = i" using assms(4-6) by (rule find_proc_hit)
  have "proc_at (procs job) i \<noteq> 0"
    using pipeline_nth [OF assms(4)] by (simp add: proc_at_def)
  with f assms(3) show ?case by (simp split: prod.splits)
next
  case (Cons j pre)
  then have "job_state j \<noteq> Some IPP_JOB_PROCESSING \<or> pid \<notin> set (pipeline (procs j))" by simp
  then have "\<not> (job_state j = Some IPP_JOB_PROCESSING
      \<and> proc_at (procs j) (find_proc (procs j) pid) \<noteq> 0)"
    using find_proc_miss [OF assms(1)] by blast
  with Cons show ?case by (auto split: prod.splits)
qed

text \<open>
  C4, as stated: for every child reaped with a non-zero status whose pid occupies a slot
  of a Processing job's pipeline, a disposition that is not already set becomes -status
  for the last slot and +status otherwise, and a disposition already set is left
  unchanged. It fails twice. The reaper tests \<open>job->status >= 0\<close>, so a positive
  disposition (an earlier filter failure, here 5) is overwritten when the backend then
  fails; and a status equal to SIGTERM is turned into 0 first, so nothing is recorded.
\<close>

theorem C4_disposition_counterexample:
  "map status (Jobs (reap_child \<lparr>Jobs = [job3\<lparr>status := 5\<rparr>], history = []\<rparr> (103, 256))) = [- 256]
   \<and> map status (Jobs (reap_child \<lparr>Jobs = [job3], history = []\<rparr> (103, 15))) = [0]"
  by (simp add: reap_child_def reap_slot_def job3_def proc_at_def SIGTERM_def
      IPP_JOB_PROCESSING_def Let_def)

text \<open>
  C4, amended: for every child reaped with a status that is neither 0 nor SIGTERM, whose
  pid occupies a slot of the pipeline of a job in processing (the first such job of the
  list, at the first slot that holds the pid), the slot is replaced by -pid and, if the
  disposition of the job is not negative (unset, or an earlier filter failure), the
  reaper records -status when the slot is the last of the pipeline and +status
  otherwise; a negative disposition is left unchanged, and so is any disposition when
  the status is 0 or SIGTERM.
\<close>

theorem C4_reaper_disposition:
  assumes "pid \<noteq> 0"
    and "Jobs r = pre @ job # post"
    and "\<forall>j \<in> set pre. job_state j \<noteq> Some IPP_JOB_PROCESSING \<or> pid \<notin> set (pipeline (procs j))"
    and "job_state job = Some IPP_JOB_PROCESSING"
    and "i < length (pipeline (procs job))" and "pipeline (procs job) ! i = pid"
    and "pid \<notin> set (take i (pipeline (procs job)))"
  shows "Jobs (reap_child r (pid, raw)) =
     pre @ job\<lparr>procs := (procs job)[i := - pid],
               status := (if raw \<noteq> 0 \<and> raw \<noteq> SIGTERM \<and> status job \<ge> 0
                          then (if Suc i = length (pipeline (procs job)) then - raw else raw)
                          else status job)\<rparr> # post"
proof -
  define st where "st = (if raw = SIGTERM then 0 else raw)"
  have "Jobs (reap_child r (pid, raw)) = fst (reap_jobs pid st (Jobs r))"
    by (simp add: reap_child_def st_def Let_def split: prod.splits)
  also have "\<dots> = pre @ fst (reap_slot pid st i job) # post"
    unfolding assms(2) using assms(1) assms(3-7) by (rule reap_jobs_first)
  also have "fst (reap_slot pid st i job) =
      job\<lparr>procs := (procs job)[i := - pid],
          status := (if raw \<noteq> 0 \<and> raw \<noteq> SIGTERM \<and> status job \<ge> 0
                     then (if Suc i = length (pipeline (procs job)) then - raw else raw)
                     else status job)\<rparr>"
    using last_slot [OF assms(5), of "- pid"]
    by (simp add: reap_slot_def st_def Let_def)
  finally show ?thesis .
qed

theorem C4_reaper_disposition_witness:
  "Jobs (reap_child \<lparr>Jobs = [job3], history = []\<rparr> (103, 256))
     = [job3\<lparr>procs := [101, 102, - 103, 0], status := - 256\<rparr>]
   \<and> Jobs (reap_child \<lparr>Jobs = [job3], history = []\<rparr> (102, 256))
     = [job3\<lparr>procs := [101, - 102, 103, 0], status := 256\<rparr>]"
proof -
  have p: "pipeline (procs job3) = [101, 102, 103]" by (simp add: pipeline_def job3_def)
  have s: "job_state job3 = Some IPP_JOB_PROCESSING"
    by (simp add: job3_def IPP_JOB_PROCESSING_def)
  have j: "Jobs \<lparr>Jobs = [job3], history = []\<rparr> = [] @ job3 # []" by simp
  have e: "\<forall>j \<in> set []. job_state j \<noteq> Some IPP_JOB_PROCESSING \<or> (103::int) \<notin> set (pipeline (procs j))"
    by simp
  have e2: "\<forall>j \<in> set []. job_state j \<noteq> Some IPP_JOB_PROCESSING \<or> (102::int) \<notin> set (pipeline (procs j))"
    by simp
  have a: "Jobs (reap_child \<lparr>Jobs = [job3], history = []\<rparr> (103, 256))
     = [job3\<lparr>procs := [101, 102, - 103, 0], status := - 256\<rparr>]"
    using C4_reaper_disposition [of 103 "\<lparr>Jobs = [job3], history = []\<rparr>" "[]" job3 "[]" 2 256, OF _ j e s]
    by (simp add: p SIGTERM_def) (simp add: job3_def)
  have b: "Jobs (reap_child \<lparr>Jobs = [job3], history = []\<rparr> (102, 256))
     = [job3\<lparr>procs := [101, - 102, 103, 0], status := 256\<rparr>]"
    using C4_reaper_disposition [of 102 "\<lparr>Jobs = [job3], history = []\<rparr>" "[]" job3 "[]" 1 256, OF _ j e2 s]
    by (simp add: p SIGTERM_def) (simp add: job3_def)
  from a b show ?thesis by blast
qed

subsection \<open>The IEEE-1284 device ID\<close>

lemma bit_byte_lt: "bit (c :: byte) n \<Longrightarrow> n < 8"
  using bit_imp_le_length [of c n] by simp

lemma unsigned_and_255_ucast: "unsigned_and_255 c = ucast c"
proof -
  have m: "(255 :: 32 word) = mask 8" by (simp add: mask_eq_exp_minus_1)
  show ?thesis
    unfolding unsigned_and_255_def m
  proof (rule bit_word_eqI)
    fix n assume "n < LENGTH(32)"
    show "bit (scast c AND mask 8 :: 32 word) n = bit (ucast c :: 32 word) n"
    proof (cases "n < 8")
      case True
      then have "min 7 n = n" by simp
      with True show ?thesis by (simp add: bit_simps)
    next
      case False
      then show ?thesis using bit_byte_lt [of c n] by (auto simp add: bit_simps)
    qed
  qed
qed

lemma unat_ucast_byte: "unat (ucast (c :: byte) :: 32 word) = unat c"
proof -
  have "unat c < 2 ^ LENGTH(8)" by (rule unsigned_less)
  then have "unat c < 2 ^ 32" by simp
  then show ?thesis by (simp add: unsigned_ucast_eq take_bit_nat_eq_self)
qed

lemma two_bytes:
  "unat (push_bit 8 (ucast (a :: byte) :: 32 word) OR ucast (b :: byte)) = 256 * unat a + unat b"
proof -
  have d: "push_bit 8 (ucast a :: 32 word) AND ucast b = 0"
  proof (rule bit_word_eqI)
    fix n assume "n < LENGTH(32)"
    show "bit (push_bit 8 (ucast a :: 32 word) AND ucast b) n = bit (0 :: 32 word) n"
      using bit_byte_lt [of b n] by (auto simp add: bit_simps)
  qed
  have "unat a < 2 ^ LENGTH(8)" by (rule unsigned_less)
  then have a: "unat a < 256" by simp
  have "unat b < 2 ^ LENGTH(8)" by (rule unsigned_less)
  then have b: "unat b < 256" by simp
  have "push_bit 8 (ucast a :: 32 word) = ucast a * 256" by (simp add: push_bit_eq_mult)
  then have "unat (push_bit 8 (ucast a :: 32 word)) = (unat a * 256) mod 2 ^ 32"
    by (simp add: unat_word_ariths unat_ucast_byte)
  then have p: "unat (push_bit 8 (ucast a :: 32 word)) = 256 * unat a"
    using a by simp
  have "push_bit 8 (ucast a :: 32 word) OR ucast b = push_bit 8 (ucast a) + ucast b"
    using disjunctive_add_eq_or [OF d] by simp
  then have "unat (push_bit 8 (ucast a :: 32 word) OR ucast b)
      = (256 * unat a + unat b) mod 2 ^ 32"
    by (simp add: unat_word_ariths p unat_ucast_byte)
  then show ?thesis using a b by simp
qed

lemma msb_first_eq: "msb_first buffer = 256 * unat (buffer ! 0) + unat (buffer ! 1)"
  by (simp add: msb_first_def unsigned_and_255_ucast two_bytes)

lemma lsb_first_eq: "lsb_first buffer = 256 * unat (buffer ! 1) + unat (buffer ! 0)"
  by (simp add: lsb_first_def unsigned_and_255_ucast two_bytes)


lemma prefix_length_eq:
  "prefix_length buffer bufsize =
     (let len = msb_first buffer;
          len = (if len > bufsize \<or> len < 14 then lsb_first buffer else len)
      in if len > bufsize then bufsize else len)"
  by (simp add: prefix_length_def msb_first_eq lsb_first_eq Let_def min_def)

lemma get_device_id_prefix_length:
  assumes "0 \<le> transfer"
  shows "get_device_id transfer buffer bufsize =
     (if prefix_length buffer bufsize < 14 then (- 1, buffer[0 := 0])
      else (0, (memmove2 buffer (prefix_length buffer bufsize - 2))
                 [prefix_length buffer bufsize - 2 := 0]))"
  using assms by (simp add: get_device_id_def prefix_length_eq Let_def)

lemma prefix_length_le: "prefix_length buffer bufsize \<le> bufsize"
  by (simp add: prefix_length_def Let_def)

lemma memmove2_terminated:
  assumes "n + 2 \<le> length buffer"
  shows "(memmove2 buffer n)[n := 0] = take n (drop 2 buffer) @ 0 # drop (Suc n) buffer"
proof -
  have l: "length (take n (drop 2 buffer)) = n" using assms by simp
  have d: "drop n buffer = buffer ! n # drop (Suc n) buffer"
    using assms by (simp add: Cons_nth_drop_Suc)
  have "(take n (drop 2 buffer) @ buffer ! n # drop (Suc n) buffer)[length (take n (drop 2 buffer)) := 0]
      = take n (drop 2 buffer) @ 0 # drop (Suc n) buffer"
    by (rule list_update_length)
  then show ?thesis
    unfolding memmove2_def by (simp only: l d [symmetric])
qed

lemma get_device_id_result:
  assumes "0 \<le> transfer" and "length buffer = bufsize"
  shows "get_device_id transfer buffer bufsize =
     (if prefix_length buffer bufsize < 14 then (- 1, buffer[0 := 0])
      else (0, take (prefix_length buffer bufsize - 2) (drop 2 buffer)
                 @ 0 # drop (prefix_length buffer bufsize - 1) buffer))"
proof (cases "prefix_length buffer bufsize < 14")
  case True
  then show ?thesis using assms(1) by (simp add: get_device_id_prefix_length)
next
  case False
  then have "prefix_length buffer bufsize - 2 + 2 \<le> length buffer"
    using prefix_length_le [of buffer bufsize] assms(2) by simp
  then have "(memmove2 buffer (prefix_length buffer bufsize - 2))[prefix_length buffer bufsize - 2 := 0]
      = take (prefix_length buffer bufsize - 2) (drop 2 buffer)
        @ 0 # drop (Suc (prefix_length buffer bufsize - 2)) buffer"
    by (rule memmove2_terminated)
  moreover have "Suc (prefix_length buffer bufsize - 2) = prefix_length buffer bufsize - 1"
    using False by simp
  ultimately show ?thesis using False assms(1) by (simp add: get_device_id_prefix_length)
qed

lemma c_string_cleared: "c_string (buffer[0 := 0]) = []"
  by (cases buffer) (simp_all add: c_string_def)

lemma c_string_terminated: "0 \<notin> set P \<Longrightarrow> c_string (P @ 0 # rest) = P"
  by (induction P) (simp_all add: c_string_def)

text \<open>
  C6: for every buffer returned by a successful device-ID control transfer,
  get\_device\_id reads the first two bytes as a big-endian length, reads them again as
  little-endian when that length exceeds the buffer size or is less than 14, and clamps
  the result to the buffer size (this is \<open>prefix_length\<close>). If the final length is less
  than 14 it stores an empty string and reports failure (-1); otherwise it removes the
  two length bytes, keeps the length - 2 payload bytes, puts a NUL after them and
  reports success (0).
\<close>

theorem C6_get_device_id:
  assumes "0 \<le> transfer" and "length buffer = bufsize" and "2 \<le> bufsize"
  shows "(prefix_length buffer bufsize < 14 \<longrightarrow>
            get_device_id transfer buffer bufsize = (- 1, buffer[0 := 0])
            \<and> c_string (snd (get_device_id transfer buffer bufsize)) = [])
     \<and> (14 \<le> prefix_length buffer bufsize \<longrightarrow>
            get_device_id transfer buffer bufsize =
              (0, take (prefix_length buffer bufsize - 2) (drop 2 buffer)
                    @ 0 # drop (prefix_length buffer bufsize - 1) buffer))"
  using get_device_id_result [OF assms(1,2)] by (simp add: c_string_cleared)

theorem C6_get_device_id_witness:
  "length (0 # 14 # mfg_mdl @ [170, 187]) = 16
   \<and> prefix_length (0 # 14 # mfg_mdl @ [170, 187]) 16 = 14
   \<and> get_device_id 0 (0 # 14 # mfg_mdl @ [170, 187]) 16 = (0, mfg_mdl @ [0, 59, 170, 187])
   \<and> prefix_length (replicate 16 0) 16 = 0
   \<and> get_device_id 0 (replicate 16 0) 16 = (- 1, replicate 16 0)"
proof -
  have l: "length (0 # 14 # mfg_mdl @ [170, 187]) = 16" by (simp add: mfg_mdl_def)
  have p: "prefix_length (0 # 14 # mfg_mdl @ [170, 187]) 16 = 14"
    by (simp add: prefix_length_def)
  have a: "get_device_id 0 (0 # 14 # mfg_mdl @ [170, 187]) 16 = (0, mfg_mdl @ [0, 59, 170, 187])"
    using C6_get_device_id [of 0 "0 # 14 # mfg_mdl @ [170, 187]" 16] l p
    by (simp add: mfg_mdl_def)
  have l0: "length (replicate 16 (0 :: byte)) = 16" by simp
  have p0: "prefix_length (replicate 16 0) 16 = 0"
    by (simp add: prefix_length_def)
  have r: "(replicate 16 (0 :: byte))[0 := 0] = replicate 16 0"
    by (simp add: list_update_same_conv)
  have b: "get_device_id 0 (replicate 16 0) 16 = (- 1, replicate 16 0)"
    using C6_get_device_id [of 0 "replicate 16 0" 16] l0 p0 by (simp add: r)
  from l p a p0 b show ?thesis by blast
qed

lemma build_prefix_length:
  assumes "14 \<le> length P + 2" and "length P + 2 + length pad = bufsize" and "bufsize < 65536"
  shows "prefix_length (build_msb P pad) bufsize = length P + 2"
    and "256 * ((length P + 2) mod 256) + (length P + 2) div 256 > bufsize
         \<or> 256 * ((length P + 2) mod 256) + (length P + 2) div 256 < 14
         \<or> 256 * ((length P + 2) mod 256) + (length P + 2) div 256 = length P + 2
         \<Longrightarrow> prefix_length (build_lsb P pad) bufsize = length P + 2"
proof -
  define L where "L = length P + 2"
  define hb :: byte where "hb = word_of_nat (L div 256)"
  define lb :: byte where "lb = word_of_nat (L mod 256)"
  have d: "L div 256 < 256" using assms(2,3) by (simp add: L_def)
  have hi: "unat hb = L div 256" using d by (simp add: hb_def unat_of_nat)
  have lo: "unat lb = L mod 256" by (simp add: lb_def unat_of_nat)
  have e: "256 * unat hb + unat lb = L" by (simp add: hi lo)
  have r: "14 \<le> L" "L \<le> bufsize" using assms(1,2) by (simp_all add: L_def)
  have m: "build_msb P pad = hb # lb # P @ pad" by (simp add: build_msb_def hb_def lb_def L_def)
  have l: "build_lsb P pad = lb # hb # P @ pad" by (simp add: build_lsb_def hb_def lb_def L_def)
  have "prefix_length (build_msb P pad) bufsize = L"
    unfolding m prefix_length_def using r by (simp add: e Let_def)
  then show "prefix_length (build_msb P pad) bufsize = length P + 2" by (simp only: L_def)
  assume "256 * ((length P + 2) mod 256) + (length P + 2) div 256 > bufsize
         \<or> 256 * ((length P + 2) mod 256) + (length P + 2) div 256 < 14
         \<or> 256 * ((length P + 2) mod 256) + (length P + 2) div 256 = length P + 2"
  then have "256 * unat lb + unat hb > bufsize \<or> 256 * unat lb + unat hb < 14
      \<or> 256 * unat lb + unat hb = L"
    by (simp only: L_def [symmetric] hi lo)
  then have "prefix_length (build_lsb P pad) bufsize = L"
    unfolding l prefix_length_def using r e by (auto simp add: Let_def)
  then show "prefix_length (build_lsb P pad) bufsize = length P + 2" by (simp only: L_def)
qed

lemma parse_built:
  assumes "14 \<le> length P + 2" and "length P + 2 + length pad = bufsize" and "0 \<notin> set P"
    and "length buffer = bufsize" and "drop 2 buffer = P @ pad"
    and "prefix_length buffer bufsize = length P + 2"
  shows "parse_device_id buffer bufsize = Some P"
proof -
  have "get_device_id 0 buffer bufsize =
      (0, take (length P) (drop 2 buffer) @ 0 # drop (length P + 1) buffer)"
    using get_device_id_result [of 0 buffer bufsize] assms(1,4,6) by simp
  then have "get_device_id 0 buffer bufsize = (0, P @ 0 # drop (length P + 1) buffer)"
    by (simp add: assms(5))
  then show ?thesis using assms(3) by (simp add: parse_device_id_def c_string_terminated)
qed

text \<open>
  C7, as stated: for every payload P with |P| + 2 not exceeding the buffer size, decoding
  the wire buffer built from P recovers exactly P, for either byte order of the prefix.
  It fails for a payload of one byte, whose length 3 is below 14 and is read again as
  768, so that the bytes left in the 1024-byte buffer are taken as payload; and it
  fails for a payload of 511 bytes with a little-endian prefix, whose length 513 reads
  as 258 when taken big-endian, which is in range: 256 bytes come back.
\<close>

theorem C7_roundtrip_counterexample:
  "parse_device_id (build_msb [65] (replicate 1021 66)) 1024 = Some (65 # replicate 765 66)
   \<and> parse_device_id (build_lsb (replicate 511 65) (replicate 511 0)) 1024
       = Some (replicate 256 65)"
proof -
  have b1: "build_msb [65] (replicate 1021 66) = 0 # 3 # 65 # replicate 1021 66"
    by (simp add: build_msb_def)
  have p1: "prefix_length (0 # 3 # 65 # replicate 1021 66) 1024 = 768"
    by (simp add: prefix_length_def)
  have "get_device_id 0 (0 # 3 # 65 # replicate 1021 66) 1024 =
      (0, (65 # replicate 765 66) @ 0 # drop 767 (0 # 3 # 65 # replicate 1021 66))"
    using get_device_id_result [of 0 "0 # 3 # 65 # replicate 1021 66" 1024]
    by (simp add: p1)
  moreover have "c_string (65 # replicate 765 66 @ 0 # rest) = 65 # replicate 765 66" for rest
    using c_string_terminated [of "65 # replicate 765 66" rest] by simp
  ultimately have short: "parse_device_id (build_msb [65] (replicate 1021 66)) 1024
      = Some (65 # replicate 765 66)"
    unfolding b1 parse_device_id_def by simp
  have b2: "build_lsb (replicate 511 65) (replicate 511 0) = 1 # 2 # replicate 511 65 @ replicate 511 0"
    by (simp add: build_lsb_def)
  have p2: "prefix_length (1 # 2 # replicate 511 65 @ replicate 511 0) 1024 = 258"
    by (simp add: prefix_length_def)
  have "get_device_id 0 (1 # 2 # replicate 511 65 @ replicate 511 0) 1024 =
      (0, replicate 256 65 @ 0 # drop 257 (1 # 2 # replicate 511 65 @ replicate 511 0))"
    using get_device_id_result [of 0 "1 # 2 # replicate 511 65 @ replicate 511 0" 1024]
    by (simp add: p2)
  then have swapped: "parse_device_id (build_lsb (replicate 511 65) (replicate 511 0)) 1024
      = Some (replicate 256 65)"
    unfolding b2 parse_device_id_def by (simp add: c_string_terminated)
  from short swapped show ?thesis by blast
qed

text \<open>
  C7, amended: for every payload P of at least 12 bytes, none of them NUL, with |P| + 2
  not exceeding the buffer size, itself below 65536, decoding a wire buffer built from P
  with its two-byte length prefix recovers exactly P when the prefix is big-endian, and
  when it is little-endian provided the length with its bytes swapped is greater than
  the buffer size, less than 14, or the length itself.
\<close>

theorem C7_length_prefix_roundtrip:
  assumes "12 \<le> length P" and "length P + 2 + length pad = bufsize" and "bufsize < 65536"
    and "0 \<notin> set P"
  shows "parse_device_id (build_msb P pad) bufsize = Some P
     \<and> (256 * ((length P + 2) mod 256) + (length P + 2) div 256 > bufsize
         \<or> 256 * ((length P + 2) mod 256) + (length P + 2) div 256 < 14
         \<or> 256 * ((length P + 2) mod 256) + (length P + 2) div 256 = length P + 2
        \<longrightarrow> parse_device_id (build_lsb P pad) bufsize = Some P)"
proof -
  have a: "14 \<le> length P + 2" using assms(1) by simp
  have "parse_device_id (build_msb P pad) bufsize = Some P"
    using a assms(2,4) _ _ build_prefix_length(1) [OF a assms(2,3)]
    by (rule parse_built) (use assms(2) in \<open>simp_all add: build_msb_def\<close>)
  moreover have "parse_device_id (build_lsb P pad) bufsize = Some P"
    if "256 * ((length P + 2) mod 256) + (length P + 2) div 256 > bufsize
         \<or> 256 * ((length P + 2) mod 256) + (length P + 2) div 256 < 14
         \<or> 256 * ((length P + 2) mod 256) + (length P + 2) div 256 = length P + 2"
    using a assms(2,4) _ _ build_prefix_length(2) [OF a assms(2,3) that]
    by (rule parse_built) (use assms(2) in \<open>simp_all add: build_lsb_def\<close>)
  ultimately show ?thesis by blast
qed

theorem C7_length_prefix_roundtrip_witness:
  "length mfg_mdl = 12 \<and> 0 \<notin> set mfg_mdl
   \<and> build_msb mfg_mdl [170, 187] = 0 # 14 # mfg_mdl @ [170, 187]
   \<and> build_lsb mfg_mdl [170, 187] = 14 # 0 # mfg_mdl @ [170, 187]
   \<and> parse_device_id (build_msb mfg_mdl [170, 187]) 16 = Some mfg_mdl
   \<and> parse_device_id (build_lsb mfg_mdl [170, 187]) 16 = Some mfg_mdl"
proof -
  have l: "length mfg_mdl = 12" by (simp add: mfg_mdl_def)
  have z: "0 \<notin> set mfg_mdl" by (simp add: mfg_mdl_def)
  have m: "build_msb mfg_mdl [170, 187] = 0 # 14 # mfg_mdl @ [170, 187]"
    by (simp add: build_msb_def l)
  have s: "build_lsb mfg_mdl [170, 187] = 14 # 0 # mfg_mdl @ [170, 187]"
    by (simp add: build_lsb_def l)
  have h1: "12 \<le> length mfg_mdl" by (simp add: l)
  have h2: "length mfg_mdl + 2 + length [170, 187 :: byte] = 16" by (simp add: l)
  have h3: "(16 :: nat) < 65536" by simp
  have sw: "256 * ((length mfg_mdl + 2) mod 256) + (length mfg_mdl + 2) div 256 > 16"
    by (simp add: l)
  from C7_length_prefix_roundtrip [OF h1 h2 h3 z] sw
  have "parse_device_id (build_msb mfg_mdl [170, 187]) 16 = Some mfg_mdl
      \<and> parse_device_id (build_lsb mfg_mdl [170, 187]) 16 = Some mfg_mdl"
    by blast
  with l z m s show ?thesis by blast
qed

subsection \<open>The side-channel reply to GET\_DEVICE\_ID\<close>

lemma sidechannel_device_id_failed:
  "transfer < 0 \<Longrightarrow>
   sidechannel_command g CUPS_SC_CMD_GET_DEVICE_ID transfer data =
     (g, Some \<lparr>sc_command = CUPS_SC_CMD_GET_DEVICE_ID, sc_status = CUPS_SC_STATUS_OK, sc_data = []\<rparr>)"
  by (simp add: sidechannel_command_def get_device_id_def)

text \<open>When the fetch succeeds the reply carries OK and the device ID string.\<close>

lemma sidechannel_device_id_ok:
  assumes "get_device_id transfer data 2048 = (0, data1)"
  shows "sidechannel_command g CUPS_SC_CMD_GET_DEVICE_ID transfer data =
     (g, Some \<lparr>sc_command = CUPS_SC_CMD_GET_DEVICE_ID, sc_status = CUPS_SC_STATUS_OK,
               sc_data = c_string data1\<rparr>)"
  using assms takeWhile_eq_take [of "\<lambda>b. b \<noteq> 0" data1]
  by (simp add: sidechannel_command_def c_string_def)

text \<open>
  C2: for a GET\_DEVICE\_ID command the reply is to carry IO\_ERROR with zero data
  bytes when the device-ID fetch fails. The code sets its local \<open>status\<close> to IO\_ERROR
  and then passes the constant CUPS\_SC\_STATUS\_OK to cupsSideChannelWrite: with a
  control transfer that returns -1 the reply written back has status OK and no data.
\<close>

theorem C2_failed_fetch_reply:
  "sidechannel_command sc_idle CUPS_SC_CMD_GET_DEVICE_ID (- 1) (replicate 2048 0) =
     (sc_idle, Some \<lparr>sc_command = CUPS_SC_CMD_GET_DEVICE_ID, sc_status = CUPS_SC_STATUS_OK,
                     sc_data = []\<rparr>)"
  by (simp add: sidechannel_command_def get_device_id_def)

subsection \<open>The device finder\<close>




















lemma uint_byte_minus_1: "uint (- 1 :: byte) = 255"
  by (simp add: unsigned_minus_1_eq_mask mask_eq_exp_minus_1)




lemmas usb_consts = LIBUSB_CLASS_PRINTER_def LIBUSB_TRANSFER_TYPE_MASK_def
  LIBUSB_TRANSFER_TYPE_BULK_def LIBUSB_ENDPOINT_DIR_MASK_def



text \<open>
  The test \<open>write_endp >= 0\<close> is made on a byte that holds 255 when no bulk
  host-to-device endpoint was seen, so an alternate setting without one is recorded.
\<close>

lemma altsetting_without_write_endp:
  "list_all (\<lambda>e. \<not> bulk_out e) [ep 129 2]
   \<and> interface_accepted no_match [alt_of 1 [ep 129 2]]
   \<and> scan_interface no_match [alt_of 1 [ep 129 2]]
       = \<lparr>protocol = 1, altset = 0, write_endp = 255, read_endp = 0\<rparr>"
  by (simp add: interface_accepted_def scan_interface_def altsetting_step_def endpoint_step_def
      alt_of_def ep_def no_match_def bulk_out_def usb_consts uint_byte_minus_1)


subsection \<open>The writer of the USB backend\<close>

lemma copy_loop_waiting_append:
  "copy_loop w0 pre = (Continue w, rest) \<Longrightarrow> copy_loop w0 (pre @ ts) = copy_loop w ts"
proof (induction pre arbitrary: w0)
  case Nil
  then show ?case by (cases ts) (simp_all split: if_splits)
next
  case (Cons t pre)
  then show ?case by (auto split: if_splits pass_result.splits)
qed

lemma copy_loop_waiting_status:
  "copy_loop w0 pre = (Continue w, rest) \<Longrightarrow> backend_status w = CUPS_BACKEND_OK"
proof (induction pre arbitrary: w0)
  case Nil
  then show ?case by (simp split: if_splits)
next
  case (Cons t pre)
  then show ?case by (auto split: if_splits pass_result.splits)
qed

lemma copy_loop_break_append:
  "copy_loop w0 pre = (Break w1, rest) \<Longrightarrow> copy_loop w0 (pre @ ts) = (Break w1, rest @ ts)"
proof (induction pre arbitrary: w0)
  case Nil
  then show ?case by (cases ts) (simp_all split: if_splits)
next
  case (Cons t pre)
  then show ?case by (auto split: if_splits pass_result.splits)
qed

lemma writer_pass_eintr:
  "nfds t < 0 \<Longrightarrow> select_errno t = EINTR \<Longrightarrow> total_bytes w = 0
   \<Longrightarrow> writer_pass w t = Return CUPS_BACKEND_OK (close_device w)"
  by (simp add: writer_pass_def)

lemma send_copies_eintr:
  assumes "nfds t < 0" and "select_errno t = EINTR" and "total_bytes w = 0"
  shows "send_copies w0 copies pre = Waiting w \<Longrightarrow>
     send_copies w0 copies (pre @ t # ts) = Exit CUPS_BACKEND_OK (close_device w)"
proof (induction copies arbitrary: w0 pre)
  case 0
  then show ?case by simp
next
  case (Suc copies)
  from Suc.prems have ok: "backend_status w0 = CUPS_BACKEND_OK"
    by (simp split: if_splits)
  obtain r rest where c: "copy_loop w0 pre = (r, rest)" by (cases "copy_loop w0 pre")
  show ?case
  proof (cases r)
    case (Continue w1)
    with Suc.prems ok c have "w1 = w" by simp
    with Continue c have c': "copy_loop w0 pre = (Continue w, rest)" by simp
    have "backend_status w = CUPS_BACKEND_OK" using c' by (rule copy_loop_waiting_status)
    then have "copy_loop w (t # ts) = (Return CUPS_BACKEND_OK (close_device w), ts)"
      using writer_pass_eintr [OF assms] by simp
    then have "copy_loop w0 (pre @ t # ts) = (Return CUPS_BACKEND_OK (close_device w), ts)"
      using copy_loop_waiting_append [OF c'] by simp
    with ok show ?thesis by simp
  next
    case (Break w1)
    with Suc.prems ok c have "send_copies w1 copies rest = Waiting w" by simp
    then have "send_copies w1 copies (rest @ t # ts) = Exit CUPS_BACKEND_OK (close_device w)"
      by (rule Suc.IH)
    moreover have "copy_loop w0 (pre @ t # ts) = (Break w1, rest @ t # ts)"
      using c Break copy_loop_break_append by simp
    ultimately show ?thesis using ok by simp
  next
    case (Return x1 x2)
    with Suc.prems ok c show ?thesis by simp
  qed
qed

text \<open>
  C10: if the select of the writer on the job input fails with EINTR while no bytes have
  been written to the device (the total of bytes written is 0), print\_device closes
  the device and exits with CUPS\_BACKEND\_OK. The writer is waiting in \<open>select\<close> in the
  state \<open>w\<close>, after any answers \<open>pre\<close> of the system and in any copy.
\<close>

theorem C10_eintr_before_any_byte:
  assumes "send_copies writer_init copies pre = Waiting w" and "total_bytes w = 0"
    and "nfds t < 0" and "select_errno t = EINTR"
  shows "print_device copies (pre @ t # ts) = Some (CUPS_BACKEND_OK, w\<lparr>handle_open := False\<rparr>)"
  using send_copies_eintr [OF assms(3,4,2,1), of ts]
  by (simp add: print_device_def close_device_def)


theorem C10_eintr_before_any_byte_witness:
  "send_copies writer_init 1 [idle_tick] = Waiting writer_init
   \<and> total_bytes writer_init = 0 \<and> nfds eintr_tick < 0 \<and> select_errno eintr_tick = EINTR
   \<and> print_device 1 [idle_tick, eintr_tick]
       = Some (CUPS_BACKEND_OK, writer_init\<lparr>handle_open := False\<rparr>)"
proof -
  have a: "send_copies writer_init (Suc 0) [idle_tick] = Waiting writer_init"
    by (simp add: writer_pass_def bulk_write_def writer_init_def idle_tick_def CUPS_BACKEND_OK_def)
  have b: "total_bytes writer_init = 0" by (simp add: writer_init_def)
  have c: "nfds eintr_tick < 0" by (simp add: eintr_tick_def)
  have d: "select_errno eintr_tick = EINTR" by (simp add: eintr_tick_def EINTR_def)
  from C10_eintr_before_any_byte [OF a b c d, of "[]"] a b c d show ?thesis by simp
qed















end
